theory Spec2Isabelle
  imports Complex_Main
begin

section \<open>The hook \<open>useHlsPlayer\<close> (src/components/player/hooks/useHlsPlayer.ts)\<close>

text \<open>
  The hook owns one \<open>useRef\<close> cell (\<open>hlsRef\<close>) and one \<open>useEffect\<close>. The effect body
  (lines 21-181) decides the playback path, constructs at most one \<open>Hls\<close> object and
  registers three handlers on it; the function it returns (lines 182-186) destroys that
  object. Objects are modelled by identity: a video element, an \<open>Hls\<close> object and a
  callback are natural numbers, and everything the code does to the outside world is
  appended to a trace of effects.
\<close>

subsection \<open>Data\<close>

type_synonym elem_id = nat
type_synonym hls_id = nat
type_synonym callback = nat

text \<open>
  The part of an \<open>HTMLVideoElement\<close> the hook reads or writes: \<open>video.paused\<close>, the answer
  of \<open>video.canPlayType('application/vnd.apple.mpegurl')\<close> (the empty string, \<open>maybe\<close> or
  \<open>probably\<close>; the code tests its truthiness) and \<open>video.src\<close>.
\<close>

record video_el =
  paused :: bool
  canPlayType_hls :: string
  video_src :: "string option"

text \<open>
  The messages handed to \<open>onError\<close>. The source's literals are Chinese text; each
  constructor stands for one literal: line 117 (\<open>HevcAdvisory\<close>), line 144
  (\<open>NetworkGiveUp\<close>), line 155 (\<open>MediaGiveUp\<close>), line 161 (\<open>FatalError\<close>, carrying
  \<open>data.details\<close>, or \<open>None\<close> for the literal that replaces a falsy \<open>data.details\<close>) and
  line 179 (\<open>HlsUnsupported\<close>).
\<close>

datatype message =
    HevcAdvisory
  | NetworkGiveUp
  | MediaGiveUp
  | FatalError "string option"
  | HlsUnsupported

text \<open>The console lines, one constructor per \<open>console.warn\<close> / \<open>console.error\<close> call.\<close>

datatype log =
    WarnPlayRejected string
  | WarnHevcDetected
  | WarnHevcSupported
  | WarnHevcUnsupported
  | WarnAutoplayPrevented string
  | ErrNetwork nat nat
  | ErrNetworkGiveUp
  | ErrMedia nat nat
  | ErrMediaGiveUp
  | ErrFatal
  | WarnNonFatal
  | ErrHlsUnsupported

datatype hls_event = FRAG_LOADED | MANIFEST_PARSED | ERROR

datatype effect =
    CanPlayType elem_id
  | HlsIsSupported
  | HlsNew hls_id
  | LoadSource hls_id string
  | AttachMedia hls_id elem_id
  | HlsOn hls_id hls_event
  | HlsDestroy hls_id
  | StartLoad hls_id
  | RecoverMediaError hls_id
  | VideoPlay elem_id
  | SetVideoSrc elem_id string
  | OnError callback message
  | OnAutoPlayPrevented callback string
  | Console log

text \<open>\<open>Hls.ErrorTypes\<close> of hls.js, and the fields of the error event the handler reads.\<close>

datatype error_type = NETWORK_ERROR | MEDIA_ERROR | KEY_SYSTEM_ERROR | MUX_ERROR | OTHER_ERROR

record error_data =
  fatal :: bool
  error_type :: error_type
  details :: "string option"

record level =
  videoCodec :: "string option"

text \<open>
  One \<open>Hls\<close> object together with the variables its handlers close over: \<open>video\<close>,
  \<open>autoPlay\<close>, the two callbacks, and the two counters declared at lines 130-131.
\<close>

record hls_instance =
  destroyed :: bool
  cl_video :: elem_id
  cl_autoPlay :: bool
  cl_onAutoPlayPrevented :: "callback option"
  cl_onError :: "callback option"
  networkErrorRetries :: nat
  mediaErrorRetries :: nat

text \<open>
  The hook's arguments. \<open>videoRef\<close> is the identity of the ref object (what the
  dependency array compares), \<open>videoRef_current\<close> the element it holds when the effect
  runs (\<open>None\<close> for \<open>null\<close>); \<open>autoPlay\<close> is optional with default \<open>false\<close>.
\<close>

record props =
  videoRef :: nat
  videoRef_current :: "elem_id option"
  src :: string
  autoPlay :: "bool option"
  onAutoPlayPrevented :: "callback option"
  onError :: "callback option"

text \<open>
  What the effect body and the handlers work on: \<open>hlsRef.current\<close>, every \<open>Hls\<close> object
  constructed so far (the index is the identity), the video elements, the answer of
  \<open>Hls.isSupported()\<close>, and the trace.
\<close>

record hook_state =
  hlsRef :: "hls_id option"
  instances :: "hls_instance list"
  videos :: "elem_id \<Rightarrow> video_el"
  hls_isSupported :: bool
  trace :: "effect list"

subsection \<open>Helpers\<close>

definition emit :: "effect \<Rightarrow> hook_state \<Rightarrow> hook_state" where
  "emit e s = s\<lparr>trace := trace s @ [e]\<rparr>"

text \<open>\<open>f?.(x)\<close>: the call happens only when the callback is defined.\<close>

definition call_onError :: "callback option \<Rightarrow> message \<Rightarrow> hook_state \<Rightarrow> hook_state" where
  "call_onError cb m s = (case cb of None \<Rightarrow> s | Some f \<Rightarrow> emit (OnError f m) s)"

definition call_onAutoPlayPrevented :: "callback option \<Rightarrow> string \<Rightarrow> hook_state \<Rightarrow> hook_state" where
  "call_onAutoPlayPrevented cb err s =
     (case cb of None \<Rightarrow> s | Some f \<Rightarrow> emit (OnAutoPlayPrevented f err) s)"

text \<open>
  \<open>hls.destroy()\<close>. The update leaves the list as it is when \<open>h\<close> is not an index of it.
\<close>

definition hls_destroy :: "hls_id \<Rightarrow> hook_state \<Rightarrow> hook_state" where
  "hls_destroy h s =
     emit (HlsDestroy h)
       (s\<lparr>instances := (instances s)[h := (instances s ! h)\<lparr>destroyed := True\<rparr>]\<rparr>)"

text \<open>
  \<open>n++\<close> on a JavaScript number that holds a non-negative integer: exact below \<open>2^53\<close>;
  at \<open>2^53\<close> the sum \<open>2^53 + 1\<close> is not representable and rounds back to \<open>2^53\<close>.
\<close>

definition js_incr :: "nat \<Rightarrow> nat" where
  "js_incr n = (if n < 2 ^ 53 then n + 1 else n)"

definition MAX_RETRIES :: nat where
  "MAX_RETRIES = 3"

subsection \<open>The codec scan (lines 108-111)\<close>

definition toLowerCase_char :: "char \<Rightarrow> char" where
  "toLowerCase_char c =
     (let n = (of_char c :: nat) in if 65 \<le> n \<and> n \<le> 90 then char_of (n + 32) else c)"

definition toLowerCase :: "string \<Rightarrow> string" where
  "toLowerCase s = map toLowerCase_char s"

fun starts_with :: "string \<Rightarrow> string \<Rightarrow> bool" where
  "starts_with s [] = True"
| "starts_with [] (t # ts) = False"
| "starts_with (c # cs) (t # ts) = (c = t \<and> starts_with cs ts)"

text \<open>\<open>s.includes(t)\<close>: \<open>t\<close> occurs in \<open>s\<close> as a contiguous block.\<close>

fun includes_str :: "string \<Rightarrow> string \<Rightarrow> bool" where
  "includes_str [] t = (t = [])"
| "includes_str (c # cs) t = (starts_with (c # cs) t \<or> includes_str cs t)"

text \<open>
  The predicate handed to \<open>levels.some\<close>. With \<open>videoCodec\<close> undefined the optional chain
  yields \<open>undefined || undefined\<close>, which is falsy.
\<close>

definition level_is_hevc :: "level \<Rightarrow> bool" where
  "level_is_hevc l =
     (case videoCodec l of
        None \<Rightarrow> False
      | Some c \<Rightarrow> includes_str (toLowerCase c) ''hev'' \<or> includes_str (toLowerCase c) ''h265'')"

definition hasHEVC :: "level list \<Rightarrow> bool" where
  "hasHEVC levels = list_ex level_is_hevc levels"

subsection \<open>The effect body (lines 21-186)\<close>

definition autoPlay_of :: "props \<Rightarrow> bool" where
  "autoPlay_of p = (case autoPlay p of None \<Rightarrow> False | Some b \<Rightarrow> b)"

text \<open>Lines 26-29: destroy what \<open>hlsRef\<close> still holds and clear the cell.\<close>

definition cleanup_previous :: "hook_state \<Rightarrow> hook_state" where
  "cleanup_previous s =
     (case hlsRef s of None \<Rightarrow> s | Some h \<Rightarrow> (hls_destroy h s)\<lparr>hlsRef := None\<rparr>)"

text \<open>
  Lines 47-92 and the three \<open>hls.on\<close> registrations, with the counters of lines 130-131
  at zero. The new object's identity is the next free index.
\<close>

definition new_instance :: "props \<Rightarrow> elem_id \<Rightarrow> hls_instance" where
  "new_instance p video =
     \<lparr>destroyed = False, cl_video = video, cl_autoPlay = autoPlay_of p,
      cl_onAutoPlayPrevented = onAutoPlayPrevented p, cl_onError = onError p,
      networkErrorRetries = 0, mediaErrorRetries = 0\<rparr>"

definition bind_engine :: "props \<Rightarrow> elem_id \<Rightarrow> hook_state \<Rightarrow> hook_state" where
  "bind_engine p video s =
     (let hls = length (instances s) in
      s\<lparr>instances := instances s @ [new_instance p video],
        hlsRef := Some hls,
        trace := trace s @
          [HlsNew hls, LoadSource hls (src p), AttachMedia hls video,
           HlsOn hls FRAG_LOADED, HlsOn hls MANIFEST_PARSED, HlsOn hls ERROR]\<rparr>)"

text \<open>\<open>video.src = src\<close> (lines 172 and 176).\<close>

definition set_video_src :: "elem_id \<Rightarrow> string \<Rightarrow> hook_state \<Rightarrow> hook_state" where
  "set_video_src video u s =
     emit (SetVideoSrc video u)
       (s\<lparr>videos := (videos s)(video := (videos s video)\<lparr>video_src := Some u\<rparr>)\<rparr>)"

text \<open>
  The effect body. The second component is what it returns to React: \<open>None\<close> when it
  returns nothing (the early return of line 23), otherwise the cleanup closure, which
  holds the local variable \<open>hls\<close> (\<open>None\<close> for \<open>null\<close>).
\<close>

definition useEffect_body :: "props \<Rightarrow> hook_state \<Rightarrow> hook_state \<times> hls_id option option" where
  "useEffect_body p s =
     (case videoRef_current p of
        None \<Rightarrow> (s, None)
      | Some video \<Rightarrow>
          if src p = [] then (s, None)
          else
            let s1 = cleanup_previous s;
                isNativeHlsSupported = canPlayType_hls (videos s1 video);
                s2 = emit (CanPlayType video) s1;
                s3 = emit HlsIsSupported s2
            in if hls_isSupported s3 then
                 if isNativeHlsSupported = [] then
                   (bind_engine p video s3, Some (Some (length (instances s3))))
                 else (set_video_src video (src p) s3, Some None)
               else if isNativeHlsSupported \<noteq> [] then
                 (set_video_src video (src p) s3, Some None)
               else
                 (call_onError (onError p) HlsUnsupported (emit (Console ErrHlsUnsupported) s3),
                  Some None))"

text \<open>The function returned at lines 182-186.\<close>

definition run_cleanup :: "hls_id option option \<Rightarrow> hook_state \<Rightarrow> hook_state" where
  "run_cleanup c s = (case c of Some (Some h) \<Rightarrow> hls_destroy h s | _ \<Rightarrow> s)"

subsection \<open>The handlers\<close>

text \<open>
  A handler belongs to the \<open>Hls\<close> object \<open>h\<close> it was registered on; there is none for an
  identity that was never constructed. \<open>play_result\<close> is how the promise of \<open>video.play()\<close>
  settles if the handler calls it: \<open>None\<close> fulfilled, \<open>Some cause\<close> rejected.
\<close>

text \<open>Lines 94-100.\<close>

definition on_FRAG_LOADED :: "hls_id \<Rightarrow> real \<Rightarrow> string option \<Rightarrow> hook_state \<Rightarrow> hook_state" where
  "on_FRAG_LOADED h frag_start play_result s =
     (if h < length (instances s) then
        let c = instances s ! h in
        if cl_autoPlay c \<and> paused (videos s (cl_video c)) \<and> frag_start = 0 then
          (case play_result of
             None \<Rightarrow> emit (VideoPlay (cl_video c)) s
           | Some err \<Rightarrow> emit (Console (WarnPlayRejected err)) (emit (VideoPlay (cl_video c)) s))
        else s
      else s)"

text \<open>
  Lines 104-120. The closure variable \<open>hls\<close> is the object itself, so the test of line
  105 holds; \<open>levels\<close> is the value of \<open>hls.levels\<close> (\<open>None\<close> for a falsy value).
\<close>

definition hevc_check :: "callback option \<Rightarrow> level list option \<Rightarrow> hook_state \<Rightarrow> hook_state" where
  "hevc_check cb levels s =
     (case levels of
        None \<Rightarrow> s
      | Some ls \<Rightarrow>
          if length ls > 0 then
            if hasHEVC ls then
              call_onError cb HevcAdvisory
                (emit (Console WarnHevcUnsupported)
                  (emit (Console WarnHevcSupported)
                    (emit (Console WarnHevcDetected) s)))
            else s
          else s)"

text \<open>Lines 102-128.\<close>

definition on_MANIFEST_PARSED ::
    "hls_id \<Rightarrow> level list option \<Rightarrow> string option \<Rightarrow> hook_state \<Rightarrow> hook_state" where
  "on_MANIFEST_PARSED h levels play_result s =
     (if h < length (instances s) then
        let c = instances s ! h;
            s1 = hevc_check (cl_onError c) levels s
        in if cl_autoPlay c then
             (case play_result of
                None \<Rightarrow> emit (VideoPlay (cl_video c)) s1
              | Some err \<Rightarrow>
                  call_onAutoPlayPrevented (cl_onAutoPlayPrevented c) err
                    (emit (Console (WarnAutoplayPrevented err))
                      (emit (VideoPlay (cl_video c)) s1)))
           else s1
      else s)"

definition set_networkErrorRetries :: "hls_id \<Rightarrow> nat \<Rightarrow> hook_state \<Rightarrow> hook_state" where
  "set_networkErrorRetries h n s =
     s\<lparr>instances := (instances s)[h := (instances s ! h)\<lparr>networkErrorRetries := n\<rparr>]\<rparr>"

definition set_mediaErrorRetries :: "hls_id \<Rightarrow> nat \<Rightarrow> hook_state \<Rightarrow> hook_state" where
  "set_mediaErrorRetries h n s =
     s\<lparr>instances := (instances s)[h := (instances s ! h)\<lparr>mediaErrorRetries := n\<rparr>]\<rparr>"

text \<open>\<open>data.details || <literal>\<close>: an undefined or empty \<open>details\<close> is replaced.\<close>

definition details_or_default :: "error_data \<Rightarrow> string option" where
  "details_or_default d =
     (case details d of None \<Rightarrow> None | Some x \<Rightarrow> if x = [] then None else Some x)"

text \<open>Lines 134-169.\<close>

definition on_ERROR :: "hls_id \<Rightarrow> error_data \<Rightarrow> hook_state \<Rightarrow> hook_state" where
  "on_ERROR h d s =
     (if h < length (instances s) then
        let c = instances s ! h in
        if fatal d then
          (case error_type d of
             NETWORK_ERROR \<Rightarrow>
               let n = js_incr (networkErrorRetries c);
                   s1 = emit (Console (ErrNetwork n MAX_RETRIES)) (set_networkErrorRetries h n s)
               in if n \<le> MAX_RETRIES then emit (StartLoad h) s1
                  else hls_destroy h
                         (call_onError (cl_onError c) NetworkGiveUp
                           (emit (Console ErrNetworkGiveUp) s1))
           | MEDIA_ERROR \<Rightarrow>
               let n = js_incr (mediaErrorRetries c);
                   s1 = emit (Console (ErrMedia n MAX_RETRIES)) (set_mediaErrorRetries h n s)
               in if n \<le> MAX_RETRIES then emit (RecoverMediaError h) s1
                  else hls_destroy h
                         (call_onError (cl_onError c) MediaGiveUp
                           (emit (Console ErrMediaGiveUp) s1))
           | _ \<Rightarrow>
               hls_destroy h
                 (call_onError (cl_onError c) (FatalError (details_or_default d))
                   (emit (Console ErrFatal) s)))
        else emit (Console WarnNonFatal) s
      else s)"

subsection \<open>The component: React's effect protocol around the body\<close>

text \<open>
  \<open>useEffect(body, deps)\<close> runs \<open>body\<close> after the first render and after every render whose
  dependency array differs from the previous one, and before each such run, and at
  unmount, it calls the function the previous run returned. The dependency array of
  line 187 is \<open>[src, videoRef, autoPlay, onAutoPlayPrevented, onError]\<close>, where
  \<open>autoPlay\<close> is the destructured variable with its default applied.
\<close>

type_synonym deps = "string \<times> nat \<times> bool \<times> callback option \<times> callback option"

definition deps_of :: "props \<Rightarrow> deps" where
  "deps_of p = (src p, videoRef p, autoPlay_of p, onAutoPlayPrevented p, onError p)"

record component =
  hook :: hook_state
  cleanup :: "hls_id option option"
  last_deps :: "deps option"

definition render :: "props \<Rightarrow> component \<Rightarrow> component" where
  "render p c =
     (if last_deps c = Some (deps_of p) then c
      else
        let r = useEffect_body p (run_cleanup (cleanup c) (hook c))
        in \<lparr>hook = fst r, cleanup = snd r, last_deps = Some (deps_of p)\<rparr>)"

text \<open>Unmount: the pending cleanup runs; a later mount starts with a fresh \<open>hlsRef\<close>.\<close>

definition unmount :: "component \<Rightarrow> component" where
  "unmount c =
     \<lparr>hook = (run_cleanup (cleanup c) (hook c))\<lparr>hlsRef := None\<rparr>,
      cleanup = None, last_deps = None\<rparr>"

text \<open>
  Everything that can happen to a component: a render, the unmount, an event of an
  \<open>Hls\<close> object reaching its handler, and the browser changing \<open>video.paused\<close>.
\<close>

datatype step =
    Render props
  | Unmount
  | FragLoaded hls_id real "string option"
  | ManifestParsed hls_id "level list option" "string option"
  | Error hls_id error_data
  | SetPaused elem_id bool

definition on_hook :: "(hook_state \<Rightarrow> hook_state) \<Rightarrow> component \<Rightarrow> component" where
  "on_hook f c = c\<lparr>hook := f (hook c)\<rparr>"

fun do_step :: "step \<Rightarrow> component \<Rightarrow> component" where
  "do_step (Render p) c = render p c"
| "do_step Unmount c = unmount c"
| "do_step (FragLoaded h st pr) c = on_hook (on_FRAG_LOADED h st pr) c"
| "do_step (ManifestParsed h ls pr) c = on_hook (on_MANIFEST_PARSED h ls pr) c"
| "do_step (Error h d) c = on_hook (on_ERROR h d) c"
| "do_step (SetPaused v b) c =
     on_hook (\<lambda>s. s\<lparr>videos := (videos s)(v := (videos s v)\<lparr>paused := b\<rparr>)\<rparr>) c"

fun run :: "step list \<Rightarrow> component \<Rightarrow> component" where
  "run [] c = c"
| "run (e # es) c = run es (do_step e c)"

text \<open>A component before its first render, in a browser with the given elements.\<close>

definition initial :: "(elem_id \<Rightarrow> video_el) \<Rightarrow> bool \<Rightarrow> component" where
  "initial vs supported =
     \<lparr>hook = \<lparr>hlsRef = None, instances = [], videos = vs, hls_isSupported = supported,
              trace = []\<rparr>,
      cleanup = None, last_deps = None\<rparr>"

subsection \<open>Auxiliary notions used in the statements\<close>

text \<open>The variables a handler closes over, apart from its two counters.\<close>

definition closure_of :: "hls_instance \<Rightarrow> elem_id \<times> bool \<times> callback option \<times> callback option" where
  "closure_of c = (cl_video c, cl_autoPlay c, cl_onAutoPlayPrevented c, cl_onError c)"

text \<open>The step is a fatal fault of category \<open>t\<close> reaching the handler of object \<open>h\<close>.\<close>

fun is_fatal_of :: "error_type \<Rightarrow> hls_id \<Rightarrow> step \<Rightarrow> bool" where
  "is_fatal_of t h (Error h' d) = (h' = h \<and> fatal d \<and> error_type d = t)"
| "is_fatal_of t h _ = False"

text \<open>The \<open>Hls\<close> objects constructed and not yet destroyed.\<close>

definition live_ids :: "hook_state \<Rightarrow> hls_id list" where
  "live_ids s = filter (\<lambda>i. \<not> destroyed (instances s ! i)) [0..<length (instances s)]"

text \<open>The \<open>Hls\<close> object an effect is a method call on, if any.\<close>

fun engine_of :: "effect \<Rightarrow> hls_id option" where
  "engine_of (HlsNew h) = Some h"
| "engine_of (LoadSource h u) = Some h"
| "engine_of (AttachMedia h v) = Some h"
| "engine_of (HlsOn h ev) = Some h"
| "engine_of (HlsDestroy h) = Some h"
| "engine_of (StartLoad h) = Some h"
| "engine_of (RecoverMediaError h) = Some h"
| "engine_of _ = None"

text \<open>The effects appended to the trace between two states.\<close>

definition added :: "hook_state \<Rightarrow> hook_state \<Rightarrow> effect list" where
  "added s s' = drop (length (trace s)) (trace s')"

text \<open>The object whose handler an event step runs.\<close>

fun event_target :: "step \<Rightarrow> hls_id option" where
  "event_target (FragLoaded h st pr) = Some h"
| "event_target (ManifestParsed h ls pr) = Some h"
| "event_target (Error h d) = Some h"
| "event_target _ = None"

text \<open>
  Reading a trace from the left, starting from the objects that are live: the objects
  constructed and not yet destroyed at its end, or \<open>None\<close> if a capability query
  (\<open>canPlayType\<close>, \<open>Hls.isSupported\<close>) or a construction happens while an object is
  live.
\<close>

fun live_after :: "hls_id list \<Rightarrow> effect list \<Rightarrow> hls_id list option" where
  "live_after live [] = Some live"
| "live_after live (HlsNew h # es) = (if live = [] then live_after [h] es else None)"
| "live_after live (CanPlayType v # es) = (if live = [] then live_after live es else None)"
| "live_after live (HlsIsSupported # es) = (if live = [] then live_after live es else None)"
| "live_after live (HlsDestroy h # es) = live_after (removeAll h live) es"
| "live_after live (e # es) = live_after live es"

text \<open>The trace passes that reading and ends with the objects the flags call live.\<close>

definition trace_agrees :: "hook_state \<Rightarrow> bool" where
  "trace_agrees s = (live_after [] (trace s) = Some (live_ids s))"

text \<open>The object a pending cleanup function will destroy.\<close>

definition owner_of :: "hls_id option option \<Rightarrow> hls_id set" where
  "owner_of k = (case k of Some (Some h) \<Rightarrow> {h} | _ \<Rightarrow> {})"

text \<open>The invariant of a component: every live object is owned by the pending cleanup.\<close>

definition consistent :: "component \<Rightarrow> bool" where
  "consistent c = (trace_agrees (hook c) \<and> set (live_ids (hook c)) \<subseteq> owner_of (cleanup c))"

subsection \<open>Concrete inputs\<close>

definition hvc1_level :: level where
  "hvc1_level = \<lparr>videoCodec = Some ''hvc1.1.6.L93.B0''\<rparr>"

definition hev1_level :: level where
  "hev1_level = \<lparr>videoCodec = Some ''HEV1.1.6.L93.B0''\<rparr>"

text \<open>
  Three video elements: one without native HLS support (desktop Chrome answers the
  empty string), one with it, and one that is already playing.
\<close>

definition no_native :: video_el where
  "no_native = \<lparr>paused = True, canPlayType_hls = [], video_src = None\<rparr>"

definition with_native :: video_el where
  "with_native = \<lparr>paused = True, canPlayType_hls = ''maybe'', video_src = None\<rparr>"

definition playing :: video_el where
  "playing = \<lparr>paused = False, canPlayType_hls = [], video_src = None\<rparr>"

definition ex_props :: props where
  "ex_props =
     \<lparr>videoRef = 0, videoRef_current = Some 0, src = ''a.m3u8'', autoPlay = Some True,
      onAutoPlayPrevented = Some 8, onError = Some 7\<rparr>"

definition fresh :: "video_el \<Rightarrow> bool \<Rightarrow> hook_state" where
  "fresh el supported = hook (initial (\<lambda>_. el) supported)"

text \<open>Two fatal faults, and a component after its first render on \<open>no_native\<close>.\<close>

definition net_fault :: error_data where
  "net_fault = \<lparr>fatal = True, error_type = NETWORK_ERROR, details = Some ''manifestLoadError''\<rparr>"

definition media_fault :: error_data where
  "media_fault = \<lparr>fatal = True, error_type = MEDIA_ERROR, details = Some ''bufferStalledError''\<rparr>"

definition bound :: component where
  "bound = run [Render ex_props] (initial (\<lambda>_. no_native) True)"

text \<open>A component whose source changed after the first render: object 0 is torn down, object 1 bound.\<close>

definition rebound :: component where
  "rebound = run [Render ex_props, Render (ex_props\<lparr>src := ''b.m3u8''\<rparr>)]
               (initial (\<lambda>_. no_native) True)"

section \<open>Basic facts\<close>

lemmas prim_defs = emit_def call_onError_def call_onAutoPlayPrevented_def hls_destroy_def
  set_networkErrorRetries_def set_mediaErrorRetries_def cleanup_previous_def bind_engine_def
  set_video_src_def run_cleanup_def hevc_check_def

lemmas ex_defs = hvc1_level_def no_native_def with_native_def playing_def ex_props_def fresh_def
  initial_def new_instance_def autoPlay_of_def deps_of_def

subsection \<open>The codec scan\<close>

text \<open>\<open>includes_str\<close> is the substring test, and two strings lower-cased.\<close>

lemma starts_with_iff: "starts_with s t \<longleftrightarrow> (\<exists>q. s = t @ q)"
  by (induction s t rule: starts_with.induct) auto

lemma includes_str_iff: "includes_str s t \<longleftrightarrow> (\<exists>p q. s = p @ t @ q)"
proof (induction s)
  case Nil
  show ?case by simp
next
  case (Cons c cs)
  show ?case
  proof
    assume "includes_str (c # cs) t"
    then consider "starts_with (c # cs) t" | "includes_str cs t" by auto
    then show "\<exists>p q. c # cs = p @ t @ q"
    proof cases
      case 1
      then obtain q where "c # cs = t @ q" by (auto simp: starts_with_iff)
      then have "c # cs = [] @ t @ q" by simp
      then show ?thesis by blast
    next
      case 2
      then obtain p q where "cs = p @ t @ q" using Cons.IH by blast
      then have "c # cs = (c # p) @ t @ q" by simp
      then show ?thesis by blast
    qed
  next
    assume "\<exists>p q. c # cs = p @ t @ q"
    then obtain p q where eq: "c # cs = p @ t @ q" by blast
    show "includes_str (c # cs) t"
    proof (cases p)
      case Nil
      with eq have "starts_with (c # cs) t" by (auto simp: starts_with_iff)
      then show ?thesis by simp
    next
      case (Cons a p')
      with eq have "cs = p' @ t @ q" by simp
      then have "includes_str cs t" using Cons.IH by blast
      then show ?thesis by simp
    qed
  qed
qed

lemma toLowerCase_example: "toLowerCase ''HEV1.1.6.L93.B0'' = ''hev1.1.6.l93.b0''"
  by code_simp

lemma toLowerCase_example2: "toLowerCase ''hvc1.1.6.L93.B0'' = ''hvc1.1.6.l93.b0''"
  by code_simp

subsection \<open>Frame facts\<close>

lemma instances_on_FRAG_LOADED [simp]:
  "instances (on_FRAG_LOADED h st pr s) = instances s"
  by (simp add: on_FRAG_LOADED_def prim_defs Let_def split: option.splits)

lemma instances_on_MANIFEST_PARSED [simp]:
  "instances (on_MANIFEST_PARSED h ls pr s) = instances s"
  by (simp add: on_MANIFEST_PARSED_def prim_defs Let_def split: option.splits)

lemma length_on_ERROR [simp]:
  "length (instances (on_ERROR h d s)) = length (instances s)"
  by (simp add: on_ERROR_def prim_defs Let_def split: option.splits error_type.splits)

lemma on_ERROR_other:
  "i \<noteq> h \<Longrightarrow> instances (on_ERROR h d s) ! i = instances s ! i"
  by (simp add: on_ERROR_def prim_defs Let_def split: option.splits error_type.splits)

lemma on_ERROR_closure:
  "closure_of (instances (on_ERROR h d s) ! i) = closure_of (instances s ! i)"
  by (cases "i = h")
    (simp_all add: on_ERROR_def prim_defs Let_def closure_of_def
      split: option.splits error_type.splits)

lemma on_ERROR_net:
  "i < length (instances s) \<Longrightarrow>
   networkErrorRetries (instances (on_ERROR h d s) ! i) =
     (if i = h \<and> fatal d \<and> error_type d = NETWORK_ERROR
      then js_incr (networkErrorRetries (instances s ! i))
      else networkErrorRetries (instances s ! i))"
  by (cases "i = h")
    (simp_all add: on_ERROR_def prim_defs Let_def split: option.splits error_type.splits)

lemma on_ERROR_media:
  "i < length (instances s) \<Longrightarrow>
   mediaErrorRetries (instances (on_ERROR h d s) ! i) =
     (if i = h \<and> fatal d \<and> error_type d = MEDIA_ERROR
      then js_incr (mediaErrorRetries (instances s ! i))
      else mediaErrorRetries (instances s ! i))"
  by (cases "i = h")
    (simp_all add: on_ERROR_def prim_defs Let_def split: option.splits error_type.splits)

lemma on_ERROR_destroyed:
  "i < length (instances s) \<Longrightarrow> destroyed (instances s ! i) \<Longrightarrow>
   destroyed (instances (on_ERROR h d s) ! i)"
  by (cases "i = h")
    (simp_all add: on_ERROR_def prim_defs Let_def split: option.splits error_type.splits)

lemma run_cleanup_length [simp]:
  "length (instances (run_cleanup k s)) = length (instances s)"
  by (simp add: prim_defs split: option.splits)

lemma run_cleanup_nth:
  "i < length (instances s) \<Longrightarrow>
   instances (run_cleanup k s) ! i =
     (if k = Some (Some i) then (instances s ! i)\<lparr>destroyed := True\<rparr> else instances s ! i)"
  by (auto simp add: prim_defs split: option.splits)

lemma useEffect_body_length:
  "length (instances s) \<le> length (instances (fst (useEffect_body p s)))"
  by (simp add: useEffect_body_def prim_defs Let_def split: option.splits)

lemma useEffect_body_nth:
  "i < length (instances s) \<Longrightarrow>
   instances (fst (useEffect_body p s)) ! i =
     (if hlsRef s = Some i \<and> videoRef_current p \<noteq> None \<and> src p \<noteq> []
      then (instances s ! i)\<lparr>destroyed := True\<rparr> else instances s ! i)"
  by (auto simp add: useEffect_body_def prim_defs Let_def nth_append split: option.splits)

lemma useEffect_body_new:
  "length (instances s) \<le> j \<Longrightarrow> j < length (instances (fst (useEffect_body p s))) \<Longrightarrow>
   j = length (instances s) \<and> snd (useEffect_body p s) = Some (Some j) \<and>
   instances (fst (useEffect_body p s)) ! j = new_instance p (the (videoRef_current p))"
  by (auto simp add: useEffect_body_def prim_defs Let_def nth_append
      split: option.splits if_splits)

lemma closure_of_destroyed [simp]: "closure_of (x\<lparr>destroyed := b\<rparr>) = closure_of x"
  by (simp add: closure_of_def)

text \<open>What one step does to the object \<open>i\<close> that exists before it.\<close>

lemma do_step_length:
  "length (instances (hook c)) \<le> length (instances (hook (do_step e c)))"
  by (cases e)
    (simp_all add: render_def unmount_def on_hook_def Let_def
      order_trans [OF _ useEffect_body_length])

lemma do_step_closure:
  assumes "i < length (instances (hook c))"
  shows "closure_of (instances (hook (do_step e c)) ! i) = closure_of (instances (hook c) ! i)"
  using assms
  by (cases e)
    (simp_all add: render_def unmount_def on_hook_def Let_def useEffect_body_nth run_cleanup_nth
      on_ERROR_closure)

lemma do_step_net:
  assumes "i < length (instances (hook c))"
  shows "networkErrorRetries (instances (hook (do_step e c)) ! i) =
     (if is_fatal_of NETWORK_ERROR i e then js_incr (networkErrorRetries (instances (hook c) ! i))
      else networkErrorRetries (instances (hook c) ! i))"
  using assms
  by (cases e)
    (auto simp add: render_def unmount_def on_hook_def Let_def useEffect_body_nth run_cleanup_nth
      on_ERROR_net)

lemma do_step_media:
  assumes "i < length (instances (hook c))"
  shows "mediaErrorRetries (instances (hook (do_step e c)) ! i) =
     (if is_fatal_of MEDIA_ERROR i e then js_incr (mediaErrorRetries (instances (hook c) ! i))
      else mediaErrorRetries (instances (hook c) ! i))"
  using assms
  by (cases e)
    (auto simp add: render_def unmount_def on_hook_def Let_def useEffect_body_nth run_cleanup_nth
      on_ERROR_media)

lemma do_step_destroyed:
  assumes "i < length (instances (hook c))" and "destroyed (instances (hook c) ! i)"
  shows "destroyed (instances (hook (do_step e c)) ! i)"
  using assms
  by (cases e)
    (simp_all add: render_def unmount_def on_hook_def Let_def useEffect_body_nth run_cleanup_nth
      on_ERROR_destroyed)

lemma do_step_new:
  assumes "length (instances (hook c)) \<le> j" and "j < length (instances (hook (do_step e c)))"
  shows "networkErrorRetries (instances (hook (do_step e c)) ! j) = 0 \<and>
         mediaErrorRetries (instances (hook (do_step e c)) ! j) = 0"
proof (cases e)
  case (Render p)
  show ?thesis
  proof (cases "last_deps c = Some (deps_of p)")
    case True
    with assms Render show ?thesis by (simp add: render_def)
  next
    case False
    with assms Render
    have "instances (fst (useEffect_body p (run_cleanup (cleanup c) (hook c)))) ! j =
          new_instance p (the (videoRef_current p))"
      using useEffect_body_new [of "run_cleanup (cleanup c) (hook c)" j p]
      by (auto simp add: render_def Let_def)
    with False Render show ?thesis by (simp add: render_def Let_def new_instance_def)
  qed
qed (use assms in \<open>simp_all add: unmount_def on_hook_def\<close>)

subsection \<open>Runs\<close>

lemma run_length:
  "length (instances (hook c)) \<le> length (instances (hook (run evs c)))"
proof (induction evs arbitrary: c)
  case Nil
  show ?case by simp
next
  case (Cons e evs)
  have "length (instances (hook c)) \<le> length (instances (hook (do_step e c)))"
    by (rule do_step_length)
  also have "\<dots> \<le> length (instances (hook (run evs (do_step e c))))"
    by (rule Cons.IH)
  finally show ?case by simp
qed

lemma run_closure:
  "i < length (instances (hook c)) \<Longrightarrow>
   closure_of (instances (hook (run evs c)) ! i) = closure_of (instances (hook c) ! i)"
proof (induction evs arbitrary: c)
  case Nil
  show ?case by simp
next
  case (Cons e evs)
  from Cons.prems have "i < length (instances (hook (do_step e c)))"
    using do_step_length [of c e] by simp
  then show ?case
    using Cons.IH [of "do_step e c"] do_step_closure [OF Cons.prems, of e] by simp
qed

lemma run_net:
  "i < length (instances (hook c)) \<Longrightarrow>
   networkErrorRetries (instances (hook (run evs c)) ! i) =
     (js_incr ^^ length (filter (is_fatal_of NETWORK_ERROR i) evs))
       (networkErrorRetries (instances (hook c) ! i))"
proof (induction evs arbitrary: c)
  case Nil
  show ?case by simp
next
  case (Cons e evs)
  from Cons.prems have "i < length (instances (hook (do_step e c)))"
    using do_step_length [of c e] by simp
  then show ?case
    using Cons.IH [of "do_step e c"] do_step_net [OF Cons.prems, of e]
    by (simp add: funpow_swap1)
qed

lemma run_media:
  "i < length (instances (hook c)) \<Longrightarrow>
   mediaErrorRetries (instances (hook (run evs c)) ! i) =
     (js_incr ^^ length (filter (is_fatal_of MEDIA_ERROR i) evs))
       (mediaErrorRetries (instances (hook c) ! i))"
proof (induction evs arbitrary: c)
  case Nil
  show ?case by simp
next
  case (Cons e evs)
  from Cons.prems have "i < length (instances (hook (do_step e c)))"
    using do_step_length [of c e] by simp
  then show ?case
    using Cons.IH [of "do_step e c"] do_step_media [OF Cons.prems, of e]
    by (simp add: funpow_swap1)
qed

lemma js_incr_ge: "n \<le> js_incr n"
  by (simp add: js_incr_def)

lemma js_incr_funpow_ge: "n \<le> (js_incr ^^ k) n"
  by (induction k) (auto intro: order_trans [OF _ js_incr_ge])

lemma js_incr_funpow_0: "(js_incr ^^ k) 0 = min k (2 ^ 53)"
  by (induction k) (auto simp: js_incr_def min_def)

subsection \<open>The concrete component\<close>

lemma bound_eval:
  "bound = \<lparr>hook = \<lparr>hlsRef = Some 0,
        instances = [\<lparr>destroyed = False, cl_video = 0, cl_autoPlay = True,
           cl_onAutoPlayPrevented = Some 8, cl_onError = Some 7,
           networkErrorRetries = 0, mediaErrorRetries = 0\<rparr>],
        videos = (\<lambda>_. no_native), hls_isSupported = True,
        trace = [CanPlayType 0, HlsIsSupported, HlsNew 0, LoadSource 0 ''a.m3u8'', AttachMedia 0 0,
           HlsOn 0 FRAG_LOADED, HlsOn 0 MANIFEST_PARSED, HlsOn 0 ERROR]\<rparr>,
      cleanup = Some (Some 0),
      last_deps = Some (''a.m3u8'', 0, True, Some 8, Some 7)\<rparr>"
  by (simp add: bound_def render_def useEffect_body_def ex_defs prim_defs)

subsection \<open>Liveness and the trace\<close>

lemma live_after_append:
  "live_after l (xs @ ys) = (case live_after l xs of None \<Rightarrow> None | Some l' \<Rightarrow> live_after l' ys)"
  by (induction l xs rule: live_after.induct) simp_all

lemma nth_update_if:
  "i < length xs \<Longrightarrow> xs[h := y] ! i = (if i = h then y else xs ! i)"
  by (cases "i = h") simp_all

lemma live_ids_cong: "instances s' = instances s \<Longrightarrow> live_ids s' = live_ids s"
  by (simp add: live_ids_def)

lemma live_ids_emit [simp]: "live_ids (emit e s) = live_ids s"
  by (simp add: live_ids_def emit_def)

lemma live_ids_call_onError [simp]: "live_ids (call_onError cb m s) = live_ids s"
  by (simp add: call_onError_def split: option.splits)

lemma live_ids_hls_destroy: "live_ids (hls_destroy h s) = removeAll h (live_ids s)"
proof -
  have "filter (\<lambda>i. \<not> destroyed ((instances s)[h := (instances s ! h)\<lparr>destroyed := True\<rparr>] ! i))
          [0..<length (instances s)] =
        filter (\<lambda>i. \<not> destroyed (instances s ! i) \<and> h \<noteq> i) [0..<length (instances s)]"
    by (rule filter_cong) (auto simp: nth_update_if)
  then show ?thesis
    by (simp add: live_ids_def hls_destroy_def emit_def removeAll_filter_not_eq)
qed

lemma live_ids_set_net [simp]: "live_ids (set_networkErrorRetries h n s) = live_ids s"
proof -
  have "filter (\<lambda>i. \<not> destroyed ((instances s)[h := (instances s ! h)\<lparr>networkErrorRetries := n\<rparr>] ! i))
          [0..<length (instances s)] =
        filter (\<lambda>i. \<not> destroyed (instances s ! i)) [0..<length (instances s)]"
    by (rule filter_cong) (auto simp: nth_update_if)
  then show ?thesis
    by (simp add: live_ids_def set_networkErrorRetries_def)
qed

lemma live_ids_set_media [simp]: "live_ids (set_mediaErrorRetries h n s) = live_ids s"
proof -
  have "filter (\<lambda>i. \<not> destroyed ((instances s)[h := (instances s ! h)\<lparr>mediaErrorRetries := n\<rparr>] ! i))
          [0..<length (instances s)] =
        filter (\<lambda>i. \<not> destroyed (instances s ! i)) [0..<length (instances s)]"
    by (rule filter_cong) (auto simp: nth_update_if)
  then show ?thesis
    by (simp add: live_ids_def set_mediaErrorRetries_def)
qed

lemma live_ids_bind_engine:
  "live_ids (bind_engine p v s) = live_ids s @ [length (instances s)]"
proof -
  have "filter (\<lambda>i. \<not> destroyed ((instances s @ [new_instance p v]) ! i)) [0..<length (instances s)] =
        filter (\<lambda>i. \<not> destroyed (instances s ! i)) [0..<length (instances s)]"
    by (rule filter_cong) (auto simp: nth_append)
  then show ?thesis
    by (simp add: live_ids_def bind_engine_def Let_def new_instance_def)
qed

lemma live_ids_set_video_src [simp]: "live_ids (set_video_src v u s) = live_ids s"
  by (simp add: live_ids_def set_video_src_def emit_def)

lemma distinct_live_ids: "distinct (live_ids s)"
  by (simp add: live_ids_def)

text \<open>The trace and the flags agree, primitive by primitive.\<close>

lemma agrees_emit:
  "trace_agrees s \<Longrightarrow> live_after (live_ids s) [e] = Some (live_ids s) \<Longrightarrow> trace_agrees (emit e s)"
  by (simp add: trace_agrees_def live_after_append) (simp add: emit_def live_after_append)

lemma agrees_call_onError: "trace_agrees s \<Longrightarrow> trace_agrees (call_onError cb m s)"
  by (cases cb) (simp_all add: call_onError_def agrees_emit)

lemma agrees_call_onAutoPlayPrevented:
  "trace_agrees s \<Longrightarrow> trace_agrees (call_onAutoPlayPrevented cb m s)"
  by (cases cb) (simp_all add: call_onAutoPlayPrevented_def agrees_emit)

lemma agrees_hls_destroy: "trace_agrees s \<Longrightarrow> trace_agrees (hls_destroy h s)"
  by (simp add: trace_agrees_def live_ids_hls_destroy)
    (simp add: hls_destroy_def emit_def live_after_append)

lemma agrees_set_net: "trace_agrees s \<Longrightarrow> trace_agrees (set_networkErrorRetries h n s)"
  by (simp add: trace_agrees_def) (simp add: set_networkErrorRetries_def)

lemma agrees_set_media: "trace_agrees s \<Longrightarrow> trace_agrees (set_mediaErrorRetries h n s)"
  by (simp add: trace_agrees_def) (simp add: set_mediaErrorRetries_def)

lemma agrees_set_video_src: "trace_agrees s \<Longrightarrow> trace_agrees (set_video_src v u s)"
  by (simp add: trace_agrees_def) (simp add: set_video_src_def emit_def live_after_append)

lemma agrees_bind_engine:
  "trace_agrees s \<Longrightarrow> live_ids s = [] \<Longrightarrow> trace_agrees (bind_engine p v s)"
  by (simp add: trace_agrees_def live_ids_bind_engine)
    (simp add: bind_engine_def Let_def live_after_append)

lemmas agrees_intros = agrees_emit agrees_call_onError agrees_call_onAutoPlayPrevented
  agrees_hls_destroy agrees_set_net agrees_set_media agrees_set_video_src

lemma agrees_hlsRef [simp]: "trace_agrees (s\<lparr>hlsRef := x\<rparr>) = trace_agrees s"
  by (simp add: trace_agrees_def live_ids_def)

lemma agrees_videos [simp]: "trace_agrees (s\<lparr>videos := x\<rparr>) = trace_agrees s"
  by (simp add: trace_agrees_def live_ids_def)

lemma live_ids_hlsRef [simp]: "live_ids (s\<lparr>hlsRef := x\<rparr>) = live_ids s"
  by (simp add: live_ids_def)

lemma live_ids_videos [simp]: "live_ids (s\<lparr>videos := x\<rparr>) = live_ids s"
  by (simp add: live_ids_def)

lemma agrees_on_FRAG_LOADED: "trace_agrees s \<Longrightarrow> trace_agrees (on_FRAG_LOADED h st pr s)"
  by (simp add: on_FRAG_LOADED_def Let_def agrees_intros split: option.splits)

lemma agrees_hevc_check: "trace_agrees s \<Longrightarrow> trace_agrees (hevc_check cb ls s)"
  by (simp add: hevc_check_def agrees_intros split: option.splits)

lemma live_ids_hevc_check [simp]: "live_ids (hevc_check cb ls s) = live_ids s"
  by (simp add: hevc_check_def split: option.splits)

lemma live_ids_call_onAutoPlayPrevented [simp]:
  "live_ids (call_onAutoPlayPrevented cb m s) = live_ids s"
  by (simp add: call_onAutoPlayPrevented_def split: option.splits)

lemma agrees_on_MANIFEST_PARSED:
  "trace_agrees s \<Longrightarrow> trace_agrees (on_MANIFEST_PARSED h ls pr s)"
  by (simp add: on_MANIFEST_PARSED_def Let_def agrees_intros agrees_hevc_check
      split: option.splits)

lemma agrees_on_ERROR: "trace_agrees s \<Longrightarrow> trace_agrees (on_ERROR h d s)"
  by (simp add: on_ERROR_def Let_def agrees_intros split: error_type.splits)

lemma live_ids_on_ERROR: "set (live_ids (on_ERROR h d s)) \<subseteq> set (live_ids s)"
  by (auto simp add: on_ERROR_def Let_def live_ids_hls_destroy split: error_type.splits)

lemma agrees_run_cleanup: "trace_agrees s \<Longrightarrow> trace_agrees (run_cleanup k s)"
  by (simp add: run_cleanup_def agrees_intros split: option.splits)

lemma removeAll_only: "set xs \<subseteq> {x} \<Longrightarrow> removeAll x xs = []"
proof -
  assume "set xs \<subseteq> {x}"
  then have "set (removeAll x xs) = {}" by auto
  then show ?thesis by (simp only: set_empty)
qed

lemma live_ids_run_cleanup:
  "set (live_ids s) \<subseteq> owner_of k \<Longrightarrow> live_ids (run_cleanup k s) = []"
  by (auto simp add: run_cleanup_def owner_of_def live_ids_hls_destroy removeAll_only
      split: option.splits)

lemma agrees_cleanup_previous: "trace_agrees s \<Longrightarrow> trace_agrees (cleanup_previous s)"
  by (simp add: cleanup_previous_def agrees_intros split: option.splits)

lemma live_ids_cleanup_previous: "live_ids s = [] \<Longrightarrow> live_ids (cleanup_previous s) = []"
  by (simp add: cleanup_previous_def live_ids_hls_destroy split: option.splits)

lemma useEffect_body_consistent:
  assumes "trace_agrees s" and "live_ids s = []"
  shows "trace_agrees (fst (useEffect_body p s)) \<and>
         set (live_ids (fst (useEffect_body p s))) \<subseteq> owner_of (snd (useEffect_body p s))"
proof -
  have a: "trace_agrees (cleanup_previous s)" and l: "live_ids (cleanup_previous s) = []"
    using assms by (simp_all add: agrees_cleanup_previous live_ids_cleanup_previous)
  show ?thesis
    using assms a l
    by (simp add: useEffect_body_def Let_def owner_of_def agrees_intros agrees_bind_engine
        live_ids_bind_engine split: option.splits)
qed

lemma consistent_initial: "consistent (initial vs supp)"
  by (simp add: consistent_def initial_def trace_agrees_def live_ids_def)

lemma consistent_do_step: "consistent c \<Longrightarrow> consistent (do_step e c)"
proof (cases e)
  case (Render p)
  assume w: "consistent c"
  then have "trace_agrees (run_cleanup (cleanup c) (hook c))"
    and "live_ids (run_cleanup (cleanup c) (hook c)) = []"
    by (simp_all add: consistent_def agrees_run_cleanup live_ids_run_cleanup)
  then show ?thesis
    using w Render useEffect_body_consistent [of "run_cleanup (cleanup c) (hook c)" p]
    by (simp add: render_def Let_def consistent_def)
next
  case Unmount
  assume "consistent c"
  then show ?thesis
    using Unmount by (simp add: unmount_def consistent_def agrees_run_cleanup live_ids_run_cleanup)
next
  case (FragLoaded h st pr)
  assume "consistent c"
  then show ?thesis
    using FragLoaded
    by (simp add: consistent_def on_hook_def agrees_on_FRAG_LOADED
        live_ids_cong [of "on_FRAG_LOADED h st pr (hook c)" "hook c"])
next
  case (ManifestParsed h ls pr)
  assume "consistent c"
  then show ?thesis
    using ManifestParsed
    by (simp add: consistent_def on_hook_def agrees_on_MANIFEST_PARSED
        live_ids_cong [of "on_MANIFEST_PARSED h ls pr (hook c)" "hook c"])
next
  case (Error h d)
  assume "consistent c"
  then show ?thesis
    using Error live_ids_on_ERROR [of h d "hook c"]
    by (auto simp add: consistent_def on_hook_def agrees_on_ERROR)
next
  case (SetPaused v b)
  assume "consistent c"
  then show ?thesis
    using SetPaused by (simp add: consistent_def on_hook_def)
qed

lemma consistent_run: "consistent c \<Longrightarrow> consistent (run evs c)"
  by (induction evs arbitrary: c) (simp_all add: consistent_do_step)

lemma owned_length: "set (live_ids s) \<subseteq> owner_of k \<Longrightarrow> length (live_ids s) \<le> 1"
proof -
  assume sub: "set (live_ids s) \<subseteq> owner_of k"
  have "finite (owner_of k)" and "card (owner_of k) \<le> 1"
    by (simp_all add: owner_of_def split: option.splits)
  with sub have "card (set (live_ids s)) \<le> 1"
    using card_mono [of "owner_of k" "set (live_ids s)"] by simp
  then show ?thesis
    by (simp add: distinct_card [OF distinct_live_ids])
qed

lemma live_after_rejects:
  "live_after [] [HlsNew 0, CanPlayType 0] = None \<and> live_after [] [HlsNew 0, HlsNew 1] = None \<and>
   live_after [] [HlsNew 0, HlsDestroy 0, CanPlayType 0, HlsNew 1] = Some [1]"
  by simp

lemma rebound_eval:
  "rebound = \<lparr>hook = \<lparr>hlsRef = Some 1,
        instances = [\<lparr>destroyed = True, cl_video = 0, cl_autoPlay = True,
           cl_onAutoPlayPrevented = Some 8, cl_onError = Some 7,
           networkErrorRetries = 0, mediaErrorRetries = 0\<rparr>,
          \<lparr>destroyed = False, cl_video = 0, cl_autoPlay = True,
           cl_onAutoPlayPrevented = Some 8, cl_onError = Some 7,
           networkErrorRetries = 0, mediaErrorRetries = 0\<rparr>],
        videos = (\<lambda>_. no_native), hls_isSupported = True,
        trace = [CanPlayType 0, HlsIsSupported, HlsNew 0, LoadSource 0 ''a.m3u8'', AttachMedia 0 0,
           HlsOn 0 FRAG_LOADED, HlsOn 0 MANIFEST_PARSED, HlsOn 0 ERROR,
           HlsDestroy 0, HlsDestroy 0, CanPlayType 0, HlsIsSupported, HlsNew 1,
           LoadSource 1 ''b.m3u8'', AttachMedia 1 0,
           HlsOn 1 FRAG_LOADED, HlsOn 1 MANIFEST_PARSED, HlsOn 1 ERROR]\<rparr>,
      cleanup = Some (Some 1),
      last_deps = Some (''b.m3u8'', 0, True, Some 8, Some 7)\<rparr>"
  by (simp add: rebound_def render_def useEffect_body_def ex_defs prim_defs)

lemma trace_on_FRAG_LOADED:
  "trace (on_FRAG_LOADED h st pr s) = trace s @ added s (on_FRAG_LOADED h st pr s) \<and>
   (\<forall>x \<in> set (added s (on_FRAG_LOADED h st pr s)). engine_of x = None)"
  by (simp add: on_FRAG_LOADED_def added_def prim_defs Let_def split: option.splits)

lemma trace_on_MANIFEST_PARSED:
  "trace (on_MANIFEST_PARSED h ls pr s) = trace s @ added s (on_MANIFEST_PARSED h ls pr s) \<and>
   (\<forall>x \<in> set (added s (on_MANIFEST_PARSED h ls pr s)). engine_of x = None)"
  by (simp add: on_MANIFEST_PARSED_def added_def prim_defs Let_def split: option.splits)

lemma trace_on_ERROR:
  "trace (on_ERROR h d s) = trace s @ added s (on_ERROR h d s) \<and>
   (\<forall>x \<in> set (added s (on_ERROR h d s)). engine_of x = None \<or> engine_of x = Some h)"
  by (simp add: on_ERROR_def added_def prim_defs Let_def split: option.splits error_type.splits)

lemma fields_on_FRAG_LOADED:
  "hlsRef (on_FRAG_LOADED h st pr s) = hlsRef s \<and> videos (on_FRAG_LOADED h st pr s) = videos s"
  by (simp add: on_FRAG_LOADED_def prim_defs Let_def split: option.splits)

lemma fields_on_MANIFEST_PARSED:
  "hlsRef (on_MANIFEST_PARSED h ls pr s) = hlsRef s \<and>
   videos (on_MANIFEST_PARSED h ls pr s) = videos s"
  by (simp add: on_MANIFEST_PARSED_def prim_defs Let_def split: option.splits)

lemma fields_on_ERROR:
  "hlsRef (on_ERROR h d s) = hlsRef s \<and> videos (on_ERROR h d s) = videos s"
  by (simp add: on_ERROR_def prim_defs Let_def split: option.splits error_type.splits)

section \<open>The claims\<close>

subsection \<open>The codec scan\<close>

text \<open>
  C3. The claim: a manifest with a level whose codec string is \<open>hvc1.1.6.L93.B0\<close> makes
  the manifest-parsed handler emit exactly one codec advisory. The scan of lines
  108-111 looks for \<open>hev\<close> and \<open>h265\<close> only: on this level \<open>hasHEVC\<close> is false, the
  check of lines 104-120 does nothing, and the handler behaves as on a manifest
  without levels, so no advisory reaches \<open>onError\<close>. The same stream labelled \<open>hev1\<close> is
  detected.
\<close>

theorem hvc1_codec_not_detected:
  "\<not> hasHEVC [hvc1_level] \<and>
   hevc_check cb (Some [hvc1_level]) s = s \<and>
   on_MANIFEST_PARSED h (Some [hvc1_level]) pr s = on_MANIFEST_PARSED h (Some []) pr s \<and>
   hasHEVC [hev1_level]"
  by (simp add: on_MANIFEST_PARSED_def hevc_check_def hasHEVC_def level_is_hevc_def hvc1_level_def
      hev1_level_def toLowerCase_example toLowerCase_example2)

subsection \<open>The effect body\<close>

text \<open>
  C10. When \<open>videoRef.current\<close> is null or \<open>src\<close> is the empty string, the effect body
  does nothing: the state, trace included, is the one it started from, and it returns
  no cleanup function.
\<close>

theorem early_return_no_action:
  "videoRef_current p = None \<or> src p = [] \<Longrightarrow> useEffect_body p s = (s, None)"
  by (auto simp: useEffect_body_def split: option.splits)

theorem early_return_no_action_witness:
  "useEffect_body (ex_props\<lparr>videoRef_current := None\<rparr>) (fresh no_native True)
     = (fresh no_native True, None) \<and>
   useEffect_body (ex_props\<lparr>src := []\<rparr>) (fresh no_native True)
     = (fresh no_native True, None)"
  using early_return_no_action [of "ex_props\<lparr>videoRef_current := None\<rparr>" "fresh no_native True"]
    early_return_no_action [of "ex_props\<lparr>src := []\<rparr>" "fresh no_native True"]
  by (simp add: ex_defs)

text \<open>
  C8. With a video element and a source at hand, when neither \<open>Hls.isSupported()\<close> nor
  \<open>canPlayType\<close> holds, the body logs and calls \<open>onError\<close> with the message of line
  179, in the same run; it constructs no \<open>Hls\<close> object (the list of objects only sees
  the cleanup of lines 26-29), leaves every video element as it was, and returns a
  cleanup that holds no object.
\<close>

theorem unsupported_reports_error:
  assumes "videoRef_current p = Some v" and "src p \<noteq> []"
    and "\<not> hls_isSupported s" and "canPlayType_hls (videos s v) = []"
    and "onError p = Some cb"
  shows "trace (fst (useEffect_body p s)) =
           trace (cleanup_previous s) @
             [CanPlayType v, HlsIsSupported, Console ErrHlsUnsupported, OnError cb HlsUnsupported] \<and>
         instances (fst (useEffect_body p s)) = instances (cleanup_previous s) \<and>
         length (instances (fst (useEffect_body p s))) = length (instances s) \<and>
         hlsRef (fst (useEffect_body p s)) = None \<and>
         videos (fst (useEffect_body p s)) = videos s \<and>
         snd (useEffect_body p s) = Some None"
  using assms
  by (simp add: useEffect_body_def prim_defs Let_def split: option.splits)

theorem unsupported_reports_error_witness:
  "trace (fst (useEffect_body ex_props (fresh no_native False))) =
     [CanPlayType 0, HlsIsSupported, Console ErrHlsUnsupported, OnError 7 HlsUnsupported] \<and>
   instances (fst (useEffect_body ex_props (fresh no_native False))) = [] \<and>
   video_src (videos (fst (useEffect_body ex_props (fresh no_native False))) 0) = None"
  using unsupported_reports_error [of ex_props 0 "fresh no_native False" 7]
  by (simp add: ex_defs prim_defs)

text \<open>
  C4, as the code has it. The claim puts the engine first: with a usable runtime an
  \<open>Hls\<close> object is constructed whether or not the element plays the format natively.
  The body does the opposite (lines 37-46 and the comment there: native first): on an
  element with native support and a usable runtime it sets \<open>video.src\<close> and
  constructs nothing.
\<close>

theorem engine_preferred_counterexample:
  "hls_isSupported (fresh with_native True) \<and>
   instances (fst (useEffect_body ex_props (fresh with_native True))) = [] \<and>
   trace (fst (useEffect_body ex_props (fresh with_native True))) =
     [CanPlayType 0, HlsIsSupported, SetVideoSrc 0 ''a.m3u8'']"
  by (simp add: useEffect_body_def ex_defs prim_defs)

text \<open>
  C4, amended. With a video element and a source at hand, after the cleanup of lines
  26-29 and the two capability queries: an element with native support gets
  \<open>video.src\<close> and no \<open>Hls\<close> object is constructed, whatever the runtime answers; an
  element without it gets a new \<open>Hls\<close> object exactly when the runtime is usable;
  with neither, nothing is constructed or set and the error of line 179 is reported.
\<close>

theorem native_first_decision:
  assumes "videoRef_current p = Some v" and "src p \<noteq> []"
  shows "(let r = useEffect_body p s; s0 = cleanup_previous s; n = length (instances s) in
     (canPlayType_hls (videos s v) \<noteq> [] \<longrightarrow>
        instances (fst r) = instances s0 \<and> snd r = Some None \<and>
        video_src (videos (fst r) v) = Some (src p) \<and>
        trace (fst r) = trace s0 @ [CanPlayType v, HlsIsSupported, SetVideoSrc v (src p)]) \<and>
     (canPlayType_hls (videos s v) = [] \<and> hls_isSupported s \<longrightarrow>
        instances (fst r) = instances s0 @ [new_instance p v] \<and> snd r = Some (Some n) \<and>
        hlsRef (fst r) = Some n \<and> videos (fst r) = videos s \<and>
        trace (fst r) = trace s0 @
          [CanPlayType v, HlsIsSupported, HlsNew n, LoadSource n (src p), AttachMedia n v,
           HlsOn n FRAG_LOADED, HlsOn n MANIFEST_PARSED, HlsOn n ERROR]) \<and>
     (canPlayType_hls (videos s v) = [] \<and> \<not> hls_isSupported s \<longrightarrow>
        instances (fst r) = instances s0 \<and> snd r = Some None \<and> videos (fst r) = videos s \<and>
        trace (fst r) = trace s0 @
          CanPlayType v # HlsIsSupported # Console ErrHlsUnsupported #
          (case onError p of None \<Rightarrow> [] | Some f \<Rightarrow> [OnError f HlsUnsupported])))"
  using assms
  by (simp add: useEffect_body_def prim_defs Let_def split: option.splits)

theorem native_first_decision_witness:
  "video_src (videos (fst (useEffect_body ex_props (fresh with_native False))) 0) = Some ''a.m3u8'' \<and>
   instances (fst (useEffect_body ex_props (fresh with_native False))) = [] \<and>
   snd (useEffect_body ex_props (fresh no_native True)) = Some (Some 0) \<and>
   length (instances (fst (useEffect_body ex_props (fresh no_native True)))) = 1 \<and>
   trace (fst (useEffect_body ex_props (fresh no_native False))) =
     [CanPlayType 0, HlsIsSupported, Console ErrHlsUnsupported, OnError 7 HlsUnsupported]"
  using native_first_decision [of ex_props 0 "fresh with_native False"]
    native_first_decision [of ex_props 0 "fresh no_native True"]
    native_first_decision [of ex_props 0 "fresh no_native False"]
  by (simp add: ex_defs prim_defs Let_def)

subsection \<open>The handlers of one object\<close>

text \<open>
  C6, as the code has it. The claim: with autoplay set and the element already
  playing, no handler calls \<open>play()\<close>. A session is started on a playing element with
  autoplay set; when the manifest is parsed the handler of lines 122-127, which does
  not look at \<open>video.paused\<close>, calls \<open>play()\<close>.
\<close>

theorem no_play_when_playing_counterexample:
  "cl_autoPlay (instances (hook (run [Render ex_props] (initial (\<lambda>_. playing) True))) ! 0) \<and>
   \<not> paused (videos (hook (run [Render ex_props] (initial (\<lambda>_. playing) True))) 0) \<and>
   trace (hook (run [Render ex_props, ManifestParsed 0 (Some []) None]
                  (initial (\<lambda>_. playing) True))) =
   trace (hook (run [Render ex_props] (initial (\<lambda>_. playing) True))) @ [VideoPlay 0]"
  by (simp add: render_def useEffect_body_def on_hook_def on_MANIFEST_PARSED_def ex_defs prim_defs)

text \<open>
  C6, amended. On an element that is not paused the fragment-loaded handler does
  nothing, so it issues no play request. The manifest-parsed handler issues exactly
  one play request when autoplay is set and none otherwise, whether or not the
  element is paused.
\<close>

theorem play_requests_by_handler:
  assumes "h < length (instances s)"
  shows "(\<not> paused (videos s (cl_video (instances s ! h))) \<longrightarrow> on_FRAG_LOADED h st pr s = s) \<and>
     count_list (added s (on_MANIFEST_PARSED h ls pr s)) (VideoPlay (cl_video (instances s ! h))) =
       (if cl_autoPlay (instances s ! h) then 1 else 0)"
  using assms
  by (simp add: on_FRAG_LOADED_def on_MANIFEST_PARSED_def added_def prim_defs Let_def
      split: option.splits)

theorem play_requests_by_handler_witness:
  "on_FRAG_LOADED 0 0 None (fst (useEffect_body ex_props (fresh playing True)))
     = fst (useEffect_body ex_props (fresh playing True)) \<and>
   count_list (added (fst (useEffect_body ex_props (fresh playing True)))
      (on_MANIFEST_PARSED 0 (Some []) None (fst (useEffect_body ex_props (fresh playing True)))))
      (VideoPlay 0) = 1"
  using play_requests_by_handler
    [of 0 "fst (useEffect_body ex_props (fresh playing True))" 0 None "Some []"]
  by (simp add: useEffect_body_def ex_defs prim_defs)

text \<open>
  C7. In the manifest-parsed handler of an object bound with autoplay set and an
  \<open>onAutoPlayPrevented\<close> callback: when the promise of \<open>play()\<close> is rejected with a
  cause, the handler does what it does when the promise is fulfilled and then logs and
  calls the callback with that cause. So the callback is called exactly once, \<open>onError\<close>
  is called no more often than without the rejection, no object is destroyed, and the
  objects with their counters, \<open>hlsRef\<close> and the video elements are as before. The other
  \<open>play()\<close> request, in the fragment-loaded handler, adds nothing to this: when it is
  rejected the handler only logs, in whatever state it runs.
\<close>

theorem autoplay_rejection_reported_once:
  assumes "h < length (instances s)" and "cl_autoPlay (instances s ! h)"
    and "cl_onAutoPlayPrevented (instances s ! h) = Some cb"
  shows "trace (on_MANIFEST_PARSED h ls (Some cause) s) =
           trace (on_MANIFEST_PARSED h ls None s) @
             [Console (WarnAutoplayPrevented cause), OnAutoPlayPrevented cb cause] \<and>
         count_list (added s (on_MANIFEST_PARSED h ls (Some cause) s))
           (OnAutoPlayPrevented cb cause) = 1 \<and>
         (\<forall>m. count_list (added s (on_MANIFEST_PARSED h ls (Some cause) s)) (OnError f m) =
              count_list (added s (on_MANIFEST_PARSED h ls None s)) (OnError f m)) \<and>
         (\<forall>i. HlsDestroy i \<notin> set (added s (on_MANIFEST_PARSED h ls (Some cause) s))) \<and>
         instances (on_MANIFEST_PARSED h ls (Some cause) s) = instances s \<and>
         hlsRef (on_MANIFEST_PARSED h ls (Some cause) s) = hlsRef s \<and>
         videos (on_MANIFEST_PARSED h ls (Some cause) s) = videos s \<and>
         set (added s' (on_FRAG_LOADED h st (Some cause') s'))
           \<subseteq> {VideoPlay (cl_video (instances s' ! h)), Console (WarnPlayRejected cause')}"
  using assms
  by (simp add: on_MANIFEST_PARSED_def on_FRAG_LOADED_def added_def prim_defs Let_def
      split: option.splits)

theorem autoplay_rejection_reported_once_witness:
  "added (fst (useEffect_body ex_props (fresh no_native True)))
      (on_MANIFEST_PARSED 0 (Some []) (Some ''NotAllowedError'')
         (fst (useEffect_body ex_props (fresh no_native True))))
    = [VideoPlay 0, Console (WarnAutoplayPrevented ''NotAllowedError''),
       OnAutoPlayPrevented 8 ''NotAllowedError'']"
  using autoplay_rejection_reported_once
    [of 0 "fst (useEffect_body ex_props (fresh no_native True))" 8 "Some []" "''NotAllowedError''"]
  by (simp add: useEffect_body_def on_MANIFEST_PARSED_def added_def ex_defs prim_defs)

subsection \<open>The retry counters\<close>

text \<open>
  C1. Take an object whose network counter is zero and whose \<open>onError\<close> callback is
  defined, let any steps happen, \<open>k\<close> of them fatal network faults of that object, and
  then let one more fatal network fault reach its handler. The counter becomes \<open>k + 1\<close>
  (as long as that is below \<open>2^53\<close>). For the first, second and third fault
  (\<open>k < 3\<close>) the handler logs and calls \<open>startLoad\<close>, and the object is not destroyed
  by it. For the fourth and every later one (\<open>3 \<le> k\<close>) it logs, calls \<open>onError\<close> with
  the message of line 144 and \<open>destroy\<close>, and does not call \<open>startLoad\<close>.
\<close>

theorem network_retry_ceiling:
  assumes "h < length (instances (hook c))"
    and "networkErrorRetries (instances (hook c) ! h) = 0"
    and "cl_onError (instances (hook c) ! h) = Some cb"
    and "fatal d" and "error_type d = NETWORK_ERROR"
  shows "(let s = hook (run evs c);
              k = length (filter (is_fatal_of NETWORK_ERROR h) evs);
              s' = on_ERROR h d s
          in networkErrorRetries (instances s' ! h) = min (k + 1) (2 ^ 53) \<and>
             (k < 3 \<longrightarrow>
                trace s' = trace s @ [Console (ErrNetwork (k + 1) 3), StartLoad h] \<and>
                destroyed (instances s' ! h) = destroyed (instances s ! h)) \<and>
             (3 \<le> k \<longrightarrow>
                trace s' = trace s @
                  [Console (ErrNetwork (min (k + 1) (2 ^ 53)) 3), Console ErrNetworkGiveUp,
                   OnError cb NetworkGiveUp, HlsDestroy h] \<and>
                destroyed (instances s' ! h)))"
proof -
  define s where "s = hook (run evs c)"
  define k where "k = length (filter (is_fatal_of NETWORK_ERROR h) evs)"
  have len: "h < length (instances s)"
    using assms(1) run_length [of c evs] by (simp add: s_def)
  have net: "networkErrorRetries (instances s ! h) = min k (2 ^ 53)"
    using run_net [OF assms(1), of evs] assms(2) by (simp add: s_def k_def js_incr_funpow_0)
  have "closure_of (instances s ! h) = closure_of (instances (hook c) ! h)"
    using run_closure [OF assms(1), of evs] by (simp add: s_def)
  with assms(3) have cb: "cl_onError (instances s ! h) = Some cb"
    by (simp add: closure_of_def)
  have "networkErrorRetries (instances (on_ERROR h d s) ! h) = min (k + 1) (2 ^ 53)"
    using len net assms(4,5) by (simp add: on_ERROR_net js_incr_def min_def)
  moreover have "k < 3 \<longrightarrow>
      trace (on_ERROR h d s) = trace s @ [Console (ErrNetwork (k + 1) 3), StartLoad h] \<and>
      destroyed (instances (on_ERROR h d s) ! h) = destroyed (instances s ! h)"
    using len net cb assms(4,5)
    by (simp add: on_ERROR_def prim_defs Let_def js_incr_def MAX_RETRIES_def min_def)
  moreover have "3 \<le> k \<longrightarrow>
      trace (on_ERROR h d s) = trace s @
        [Console (ErrNetwork (min (k + 1) (2 ^ 53)) 3), Console ErrNetworkGiveUp,
         OnError cb NetworkGiveUp, HlsDestroy h] \<and>
      destroyed (instances (on_ERROR h d s) ! h)"
    using len net cb assms(4,5)
    by (simp add: on_ERROR_def prim_defs Let_def js_incr_def MAX_RETRIES_def min_def)
  ultimately show ?thesis
    by (simp add: Let_def s_def k_def)
qed

theorem network_retry_ceiling_witness:
  "trace (hook (run [Error 0 net_fault, Error 0 net_fault, Error 0 net_fault] bound)) =
     trace (hook (run [Error 0 net_fault, Error 0 net_fault] bound)) @
       [Console (ErrNetwork 3 3), StartLoad 0] \<and>
   trace (on_ERROR 0 net_fault
            (hook (run [Error 0 net_fault, Error 0 net_fault, Error 0 net_fault] bound))) =
     trace (hook (run [Error 0 net_fault, Error 0 net_fault, Error 0 net_fault] bound)) @
       [Console (ErrNetwork 4 3), Console ErrNetworkGiveUp, OnError 7 NetworkGiveUp, HlsDestroy 0] \<and>
   destroyed (instances (on_ERROR 0 net_fault
      (hook (run [Error 0 net_fault, Error 0 net_fault, Error 0 net_fault] bound))) ! 0)"
  using network_retry_ceiling [of 0 bound 7 net_fault "[Error 0 net_fault, Error 0 net_fault]"]
    network_retry_ceiling
      [of 0 bound 7 net_fault "[Error 0 net_fault, Error 0 net_fault, Error 0 net_fault]"]
  by (simp add: bound_eval net_fault_def Let_def on_hook_def)

text \<open>
  C2. For an object that exists, after any steps: the object still exists; its network
  counter is the old one incremented once per fatal network fault that reached its
  handler, its media counter the old one incremented once per fatal media fault that
  reached its handler, so faults of the other category, non-fatal faults, other events,
  renders and the unmount change neither; no counter is below its old value; an object
  that a step brings into being has both counters at zero; and an increment adds one
  to any counter below \<open>2^53\<close>.
\<close>

theorem retry_counters_monotone:
  assumes "h < length (instances (hook c))"
  shows "h < length (instances (hook (run evs c))) \<and>
    networkErrorRetries (instances (hook (run evs c)) ! h) =
      (js_incr ^^ length (filter (is_fatal_of NETWORK_ERROR h) evs))
        (networkErrorRetries (instances (hook c) ! h)) \<and>
    mediaErrorRetries (instances (hook (run evs c)) ! h) =
      (js_incr ^^ length (filter (is_fatal_of MEDIA_ERROR h) evs))
        (mediaErrorRetries (instances (hook c) ! h)) \<and>
    networkErrorRetries (instances (hook c) ! h)
      \<le> networkErrorRetries (instances (hook (run evs c)) ! h) \<and>
    mediaErrorRetries (instances (hook c) ! h)
      \<le> mediaErrorRetries (instances (hook (run evs c)) ! h) \<and>
    (\<forall>j. length (instances (hook c)) \<le> j \<and> j < length (instances (hook (do_step e c))) \<longrightarrow>
       networkErrorRetries (instances (hook (do_step e c)) ! j) = 0 \<and>
       mediaErrorRetries (instances (hook (do_step e c)) ! j) = 0) \<and>
    (\<forall>n. n < 2 ^ 53 \<longrightarrow> js_incr n = n + 1)"
  using assms run_length [of c evs] run_net [OF assms, of evs] run_media [OF assms, of evs]
    do_step_new [of c _ e]
  by (simp add: js_incr_funpow_ge js_incr_def)

theorem retry_counters_monotone_witness:
  "networkErrorRetries (instances (hook (run
      [Error 0 net_fault, Error 0 media_fault, Error 0 (net_fault\<lparr>fatal := False\<rparr>),
       FragLoaded 0 0 None, Error 0 net_fault] bound)) ! 0) = 2 \<and>
   mediaErrorRetries (instances (hook (run
      [Error 0 net_fault, Error 0 media_fault, Error 0 (net_fault\<lparr>fatal := False\<rparr>),
       FragLoaded 0 0 None, Error 0 net_fault] bound)) ! 0) = 1 \<and>
   networkErrorRetries (instances (hook (do_step (Render (ex_props\<lparr>src := ''b.m3u8''\<rparr>))
      (run [Error 0 net_fault] bound))) ! 1) = 0 \<and>
   networkErrorRetries (instances (hook (do_step (Render (ex_props\<lparr>src := ''b.m3u8''\<rparr>))
      (run [Error 0 net_fault] bound))) ! 0) = 1"
  using retry_counters_monotone [of 0 bound
      "[Error 0 net_fault, Error 0 media_fault, Error 0 (net_fault\<lparr>fatal := False\<rparr>),
        FragLoaded 0 0 None, Error 0 net_fault]"]
    retry_counters_monotone [of 0 "run [Error 0 net_fault] bound" "[]"
      "Render (ex_props\<lparr>src := ''b.m3u8''\<rparr>)"]
    retry_counters_monotone [of 0 bound "[Error 0 net_fault, Render (ex_props\<lparr>src := ''b.m3u8''\<rparr>)]"]
  by (simp add: bound_eval net_fault_def media_fault_def js_incr_def MAX_RETRIES_def on_hook_def
      on_ERROR_def on_FRAG_LOADED_def render_def useEffect_body_def prim_defs ex_defs Let_def)

subsection \<open>Teardown and rebinding\<close>

text \<open>
  C9. In every state a component reaches from its first mount, by renders, the unmount,
  events and changes of \<open>video.paused\<close>: at most one \<open>Hls\<close> object is live; the trace
  read from the left never shows a capability query or a construction while an object
  is live, and ends with exactly the live objects; and once the pending cleanup has
  run, which is how the next run of the effect starts, no object is live.
\<close>

theorem single_live_engine:
  "(let c = run evs (initial vs supp) in
      length (live_ids (hook c)) \<le> 1 \<and>
      live_after [] (trace (hook c)) = Some (live_ids (hook c)) \<and>
      live_ids (run_cleanup (cleanup c) (hook c)) = [])"
proof -
  have "consistent (run evs (initial vs supp))"
    by (rule consistent_run [OF consistent_initial])
  then show ?thesis
    using owned_length [of "hook (run evs (initial vs supp))" "cleanup (run evs (initial vs supp))"]
    by (simp add: Let_def consistent_def trace_agrees_def live_ids_run_cleanup)
qed

text \<open>
  C5, as the code has it. The claim: an event of a torn-down object changes nothing,
  because handlers compare a generation identifier. The handlers compare nothing.
  After the source changed (object 0 destroyed, object 1 bound), a fatal network fault
  handed to the handler of object 0 raises its counter and calls \<open>startLoad\<close> on it, a
  fatal fault of another category calls \<open>onError\<close>, and a first fragment calls
  \<open>play()\<close> on the element.
\<close>

theorem stale_event_honoured_counterexample:
  "destroyed (instances (hook rebound) ! 0) \<and> hlsRef (hook rebound) = Some 1 \<and>
   added (hook rebound) (hook (do_step (Error 0 net_fault) rebound)) =
     [Console (ErrNetwork 1 3), StartLoad 0] \<and>
   networkErrorRetries (instances (hook (do_step (Error 0 net_fault) rebound)) ! 0) = 1 \<and>
   added (hook rebound)
     (hook (do_step (Error 0 (net_fault\<lparr>error_type := OTHER_ERROR\<rparr>)) rebound)) =
     [Console ErrFatal, OnError 7 (FatalError (Some ''manifestLoadError'')), HlsDestroy 0] \<and>
   added (hook rebound) (hook (do_step (FragLoaded 0 0 None) rebound)) = [VideoPlay 0]"
  by (simp add: rebound_eval net_fault_def on_hook_def on_ERROR_def on_FRAG_LOADED_def added_def
      prim_defs js_incr_def MAX_RETRIES_def details_or_default_def no_native_def)

text \<open>
  C5, amended. An event that reaches the handler of an object \<open>h\<close> leaves every other
  object as it is (counters and destroyed flag), constructs nothing, and changes
  neither \<open>hlsRef\<close>, the pending cleanup, the dependencies nor the video elements; the
  engine calls among its effects are calls on \<open>h\<close> itself. Callbacks and \<open>play()\<close> it
  may still call.
\<close>

theorem stale_event_confined:
  assumes "event_target e = Some h" and "i \<noteq> h"
  shows "length (instances (hook (do_step e c))) = length (instances (hook c)) \<and>
         instances (hook (do_step e c)) ! i = instances (hook c) ! i \<and>
         hlsRef (hook (do_step e c)) = hlsRef (hook c) \<and>
         videos (hook (do_step e c)) = videos (hook c) \<and>
         cleanup (do_step e c) = cleanup c \<and> last_deps (do_step e c) = last_deps c \<and>
         trace (hook (do_step e c)) = trace (hook c) @ added (hook c) (hook (do_step e c)) \<and>
         (\<forall>x \<in> set (added (hook c) (hook (do_step e c))).
            engine_of x = None \<or> engine_of x = Some h)"
proof (cases e)
  case (FragLoaded h' st pr)
  then show ?thesis
    using assms trace_on_FRAG_LOADED [of h st pr "hook c"] fields_on_FRAG_LOADED [of h st pr "hook c"]
    by (simp add: on_hook_def)
next
  case (ManifestParsed h' ls pr)
  then show ?thesis
    using assms trace_on_MANIFEST_PARSED [of h ls pr "hook c"]
      fields_on_MANIFEST_PARSED [of h ls pr "hook c"]
    by (simp add: on_hook_def)
next
  case (Error h' d)
  then show ?thesis
    using assms trace_on_ERROR [of h d "hook c"] fields_on_ERROR [of h d "hook c"]
      on_ERROR_other [of i h d "hook c"]
    by (simp add: on_hook_def)
qed (use assms in simp_all)

theorem stale_event_confined_witness:
  "instances (hook (do_step (Error 0 net_fault) rebound)) ! 1 = instances (hook rebound) ! 1 \<and>
   hlsRef (hook (do_step (Error 0 net_fault) rebound)) = Some 1 \<and>
   cleanup (do_step (Error 0 net_fault) rebound) = Some (Some 1) \<and>
   added (hook rebound) (hook (do_step (Error 0 net_fault) rebound)) =
     [Console (ErrNetwork 1 3), StartLoad 0]"
  using stale_event_confined [of "Error 0 net_fault" 0 1 rebound]
  by (simp add: rebound_eval net_fault_def on_hook_def on_ERROR_def added_def prim_defs js_incr_def
      MAX_RETRIES_def)

end
